theory Spec2Isabelle
  imports
    Complex_Main
    "HOL-Library.Word"
    "HOL-Library.Char_ord"
    "HOL-Library.List_Lexorder"
    "HOL-Library.Product_Lexorder"
begin

section \<open>The data frame held by \<open>DKIEducationData\<close>\<close>

text \<open>
  \<open>main.py\<close> keeps one pandas DataFrame in \<open>self.df\<close>. A cell is what pandas stores
  after \<open>read_csv\<close>: a string, a 64-bit integer (\<open>np.int64\<close>, sums wrap around), a
  finite float (every double is a rational), an infinite float (\<open>True\<close> for the
  positive one), the missing value NaN, or a boolean. Strings are byte strings
  (UTF-8), compared byte by byte as Python compares code points.
\<close>

datatype cell = Str string | I64 "64 word" | F64 rat | FInf bool | NaN | Bool bool

datatype dtype = Object | Int64 | Float64 | BoolT

text \<open>
  The frame: the column labels with their dtypes, left to right, and the rows in file
  order, each row holding one cell per column.
\<close>

record frame =
  cols :: "(string \<times> dtype) list"
  rows :: "cell list list"

definition names :: "frame \<Rightarrow> string list" where
  "names d = map fst (cols d)"

text \<open>The exceptions that the modelled operations raise.\<close>

datatype error =
    KeyError string
  | ValueError
  | OverflowError
  | UndefinedVariableError string
  | QueryNotModelled
  | GroupbyNotModelled
  | AttributeError
  | NoRouteMatch

text \<open>
  \<open>read_csv\<close> gives every column a distinct label (it renames duplicates), one cell per
  column in every row, and cells that agree with the dtype of their column.
\<close>

fun conforms :: "dtype \<Rightarrow> cell \<Rightarrow> bool" where
  "conforms Object (Str s) = True"
| "conforms Object NaN = True"
| "conforms Object (I64 w) = (w = 0)"
| "conforms Int64 (I64 w) = True"
| "conforms Float64 (F64 r) = True"
| "conforms Float64 (FInf b) = True"
| "conforms Float64 NaN = True"
| "conforms BoolT (Bool b) = True"
| "conforms t c = False"

definition wf_frame :: "frame \<Rightarrow> bool" where
  "wf_frame d \<longleftrightarrow>
     distinct (names d) \<and>
     (\<forall>r \<in> set (rows d). length r = length (cols d) \<and>
        list_all2 conforms (map snd (cols d)) r)"

section \<open>\<open>get_column_names\<close>: a label slice of the columns\<close>

text \<open>
  \<open>self.df.loc[:, from_:until].columns\<close> slices the column index by label. pandas
  (\<open>Index.get_slice_bound\<close>) looks each bound up; a label that is not a column is
  placed by binary search when the index is monotonic, increasing or decreasing, and
  raises \<open>KeyError\<close> otherwise. The left bound is the position of \<open>from_\<close>, the right
  bound one past the position of \<open>until\<close>, and the result is the Python slice between
  them, empty when the left bound is not below the right one. The labels of a frame
  are distinct, so a label that is a column has one position.
\<close>

datatype side = Left | Right

fun get_loc :: "string list \<Rightarrow> string \<Rightarrow> nat option" where
  "get_loc [] l = None"
| "get_loc (x # xs) l = (if x = l then Some 0 else map_option Suc (get_loc xs l))"

definition is_monotonic_increasing :: "string list \<Rightarrow> bool" where
  "is_monotonic_increasing xs = sorted xs"

definition is_monotonic_decreasing :: "string list \<Rightarrow> bool" where
  "is_monotonic_decreasing xs = sorted (rev xs)"

fun searchsorted :: "string list \<Rightarrow> string \<Rightarrow> side \<Rightarrow> nat" where
  "searchsorted xs l Left = length (filter (\<lambda>x. x < l) xs)"
| "searchsorted xs l Right = length (filter (\<lambda>x. x \<le> l) xs)"

fun flip :: "side \<Rightarrow> side" where
  "flip Left = Right"
| "flip Right = Left"

definition searchsorted_monotonic :: "string list \<Rightarrow> string \<Rightarrow> side \<Rightarrow> nat option" where
  "searchsorted_monotonic xs l sd =
     (if is_monotonic_increasing xs then Some (searchsorted xs l sd)
      else if is_monotonic_decreasing xs
        then Some (length xs - searchsorted (rev xs) l (flip sd))
      else None)"

definition get_slice_bound :: "string list \<Rightarrow> string \<Rightarrow> side \<Rightarrow> error + nat" where
  "get_slice_bound xs l sd =
     (case get_loc xs l of
        Some i \<Rightarrow> Inr (case sd of Left \<Rightarrow> i | Right \<Rightarrow> Suc i)
      | None \<Rightarrow>
          (case searchsorted_monotonic xs l sd of
             Some i \<Rightarrow> Inr i
           | None \<Rightarrow> Inl (KeyError l)))"

definition get_column_names :: "frame \<Rightarrow> string \<Rightarrow> string \<Rightarrow> error + string list" where
  "get_column_names d frm until =
     (case get_slice_bound (names d) frm Left of
        Inl e \<Rightarrow> Inl e
      | Inr s \<Rightarrow>
          (case get_slice_bound (names d) until Right of
             Inl e \<Rightarrow> Inl e
           | Inr e \<Rightarrow> Inr (take (e - s) (drop s (names d)))))"

text \<open>
  The specification's "columns lying between two named boundary columns, inclusive,
  in the Dataset's native column order", to compare the slice with: the columns
  positioned from one boundary to the other, whichever of the two comes first.
\<close>

definition position :: "string list \<Rightarrow> string \<Rightarrow> nat" where
  "position xs l = (case get_loc xs l of Some i \<Rightarrow> i | None \<Rightarrow> length xs)"

definition spec_columns_between :: "string list \<Rightarrow> string \<Rightarrow> string \<Rightarrow> string list" where
  "spec_columns_between xs a b =
     filter (\<lambda>c. min (position xs a) (position xs b) \<le> position xs c \<and>
                position xs c \<le> max (position xs a) (position xs b)) xs"


section \<open>The order of group keys\<close>

text \<open>
  \<open>groupby\<close> sorts the distinct values of every key column (\<open>sort=True\<close> is the
  default). After \<open>__clean\<close> a key is an integer or a string; integers are ordered as
  signed numbers, strings as Python orders them, and pandas puts the integers of a
  mixed column before its strings. The other kinds of cell come after the integers
  and before the strings, kind by kind, which only makes the order total. Key tuples
  are ordered lexicographically.
\<close>

fun enc :: "cell \<Rightarrow> nat \<times> int \<times> rat \<times> string" where
  "enc (I64 w) = (0, sint w, 0, [])"
| "enc (Bool b) = (1, of_bool b, 0, [])"
| "enc (F64 r) = (2, 0, r, [])"
| "enc (FInf b) = (3, of_bool b, 0, [])"
| "enc NaN = (4, 0, 0, [])"
| "enc (Str s) = (5, 0, 0, s)"

instantiation cell :: linorder
begin

definition less_eq_cell :: "cell \<Rightarrow> cell \<Rightarrow> bool" where
  "less_eq_cell c d \<longleftrightarrow> enc c \<le> enc d"

definition less_cell :: "cell \<Rightarrow> cell \<Rightarrow> bool" where
  "less_cell c d \<longleftrightarrow> enc c < enc d"

instance
proof
  fix x y z :: cell
  have enc_inj: "enc c = enc d \<Longrightarrow> c = d" for c d
    by (cases c; cases d) (auto split: if_splits dest: signed_word_eqI)
  show "(x < y) = (x \<le> y \<and> \<not> y \<le> x)"
    unfolding less_eq_cell_def less_cell_def by (rule less_le_not_le)
  show "x \<le> x" unfolding less_eq_cell_def by simp
  show "x \<le> y \<Longrightarrow> y \<le> z \<Longrightarrow> x \<le> z" unfolding less_eq_cell_def by (rule order_trans)
  show "x \<le> y \<Longrightarrow> y \<le> x \<Longrightarrow> x = y"
    unfolding less_eq_cell_def by (rule enc_inj) (rule antisym)
  show "x \<le> y \<or> y \<le> x" unfolding less_eq_cell_def by (rule linear)
qed

end

section \<open>Loading: \<open>__open\<close> and \<open>__clean\<close>\<close>

definition tahun :: string where
  "tahun = ''tahun''"




text \<open>
  \<open>np.int64(x)\<close> on one cell of a column that is not of dtype object: a float is cut
  towards zero, and raises \<open>OverflowError\<close> when it is infinite or outside 64 bits; NaN
  raises \<open>ValueError\<close>. Such a column holds no string, so that case is only there to
  make the function total.
\<close>

definition trunc_rat :: "rat \<Rightarrow> int" where
  "trunc_rat r = (if 0 \<le> r then \<lfloor>r\<rfloor> else \<lceil>r\<rceil>)"

fun np_int64 :: "cell \<Rightarrow> error + cell" where
  "np_int64 (I64 w) = Inr (I64 w)"
| "np_int64 (Bool b) = Inr (I64 (if b then 1 else 0))"
| "np_int64 (F64 r) =
     (if - (2 ^ 63) \<le> trunc_rat r \<and> trunc_rat r < 2 ^ 63
      then Inr (I64 (word_of_int (trunc_rat r))) else Inl OverflowError)"
| "np_int64 (FInf b) = Inl OverflowError"
| "np_int64 NaN = Inl ValueError"
| "np_int64 (Str s) = Inl ValueError"





text \<open>
  The object: its path and its frame, \<open>None\<close> until \<open>__open\<close> has run. What
  \<open>pd.read_csv\<close> finds in the file is not in the repository; its outcome, a frame or
  an exception, is an argument of \<open>init\<close>.
\<close>

record store =
  path :: string
  df :: "frame option"




text \<open>
  What \<open>__clean\<close> establishes, in the terms of the code: the frame is well formed,
  has no column \<open>tahun\<close> and no missing value, and its columns are object or int64
  columns. Which columns are object columns is what \<open>read_csv\<close> made of the file.
\<close>

definition no_nulls :: "frame \<Rightarrow> bool" where
  "no_nulls d \<longleftrightarrow> (\<forall>r \<in> set (rows d). NaN \<notin> set r)"

definition cleaned :: "frame \<Rightarrow> bool" where
  "cleaned d \<longleftrightarrow>
     wf_frame d \<and> tahun \<notin> set (names d) \<and> no_nulls d \<and>
     (\<forall>(c, t) \<in> set (cols d). t = Object \<or> t = Int64)"



section \<open>Records and cells by label\<close>

text \<open>
  A record is what \<open>to_dict('records')\<close> yields for one row: the fields in column
  order, each label with its value.
\<close>

type_synonym row_dict = "(string \<times> cell) list"

definition to_dict_records :: "frame \<Rightarrow> row_dict list" where
  "to_dict_records d = map (zip (names d)) (rows d)"

definition select_all :: "frame \<Rightarrow> row_dict list" where
  "select_all d = to_dict_records d"

text \<open>The cell of a row under a label (the label is a column wherever this is used).\<close>

definition cellv :: "frame \<Rightarrow> string \<Rightarrow> cell list \<Rightarrow> cell" where
  "cellv d c r = (case map_of (zip (names d) r) c of Some v \<Rightarrow> v | None \<Rightarrow> NaN)"

section \<open>\<open>groupby(groups).sum().reset_index().to_dict('records')\<close>\<close>

text \<open>
  \<open>groups\<close> is one label (the single-entity calls pass a string) or a list of labels
  (what \<open>get_column_names\<close> returns).
\<close>

datatype group_arg = Label string | Labels "string list"

fun labels :: "group_arg \<Rightarrow> string list" where
  "labels (Label l) = [l]"
| "labels (Labels ls) = ls"

text \<open>
  pandas 1.x, the version \<open>applymap\<close> and the bare \<open>sum()\<close> of the source belong to:
  \<open>groupby\<close> raises \<open>ValueError\<close> without keys and \<open>KeyError\<close> for a key that is not a
  column; it drops the rows with a missing key (\<open>dropna=True\<close>) and puts the
  remaining distinct key tuples in ascending order (\<open>sort=True\<close>); \<open>sum()\<close> adds up,
  per group, the numeric columns that are not keys, with 64-bit wrap-around, and
  leaves the other object columns out (\<open>numeric_only\<close>); \<open>reset_index()\<close> puts the
  key columns in front and raises \<open>ValueError\<close> when a key is listed twice. By then
  \<open>__clean\<close> has made every numeric column an int64 column.

  Two cases in which pandas answers differently are not modelled, and
  \<open>groupby_sum_records\<close> says so with \<open>GroupbyNotModelled\<close>: a list of keys as long
  as the frame has rows, not all of them columns, which pandas takes for one array
  of group values; and a frame with rows whose columns besides the keys are all
  object columns, which \<open>sum()\<close> then concatenates instead of leaving out.
\<close>

definition key_of :: "frame \<Rightarrow> string list \<Rightarrow> cell list \<Rightarrow> cell list" where
  "key_of d ks r = map (\<lambda>k. cellv d k r) ks"

definition group_keys :: "frame \<Rightarrow> string list \<Rightarrow> cell list list" where
  "group_keys d ks =
     sort (remdups (filter (\<lambda>k. NaN \<notin> set k) (map (key_of d ks) (rows d))))"

definition value_columns :: "frame \<Rightarrow> string list \<Rightarrow> string list" where
  "value_columns d ks = map fst (filter (\<lambda>(c, t). t = Int64 \<and> c \<notin> set ks) (cols d))"

fun int_val :: "cell \<Rightarrow> 64 word" where
  "int_val (I64 w) = w"
| "int_val c = 0"

definition group_sum :: "frame \<Rightarrow> string list \<Rightarrow> cell list \<Rightarrow> string \<Rightarrow> 64 word" where
  "group_sum d ks k c =
     sum_list (map (\<lambda>r. int_val (cellv d c r)) (filter (\<lambda>r. key_of d ks r = k) (rows d)))"

definition summary_row :: "frame \<Rightarrow> string list \<Rightarrow> cell list \<Rightarrow> row_dict" where
  "summary_row d ks k =
     zip ks k @ map (\<lambda>c. (c, I64 (group_sum d ks k c))) (value_columns d ks)"

fun is_list :: "group_arg \<Rightarrow> bool" where
  "is_list (Label l) = False"
| "is_list (Labels ls) = True"

definition groupby_sum_records :: "frame \<Rightarrow> group_arg \<Rightarrow> error + row_dict list" where
  "groupby_sum_records d groups =
     (let ks = labels groups in
      if ks = [] then Inl ValueError
      else if is_list groups \<and> length ks = length (rows d) \<and>
              list_ex (\<lambda>k. k \<notin> set (names d)) ks
        then Inl GroupbyNotModelled
      else (case find (\<lambda>k. k \<notin> set (names d)) ks of
              Some k \<Rightarrow> Inl (KeyError k)
            | None \<Rightarrow>
                if rows d \<noteq> [] \<and> value_columns d ks = [] \<and>
                   list_ex (\<lambda>c. c \<notin> set ks) (names d)
                  then Inl GroupbyNotModelled
                else if \<not> distinct ks then Inl ValueError
                else Inr (map (summary_row d ks) (group_keys d ks))))"

section \<open>The filter: a query expression built from the filters\<close>

text \<open>
  \<open>summary_total_by\<close> writes the filters into one expression,
  \<^verbatim>\<open>' | '.join([f'`{column}` == "{value}"' for column, value in filters])\<close>,
  and hands the text to \<open>DataFrame.query\<close>, which parses it.
\<close>

definition backtick :: char where
  "backtick = CHR 0x60"

definition dquote :: char where
  "dquote = CHR 0x22"

definition backslash :: char where
  "backslash = CHR 0x5C"

definition predicate_text :: "string \<times> string \<Rightarrow> string" where
  "predicate_text p = backtick # fst p @ backtick # '' == '' @ dquote # snd p @ [dquote]"

fun join_or :: "string list \<Rightarrow> string" where
  "join_or [] = []"
| "join_or [x] = x"
| "join_or (x # y # ys) = x @ '' | '' @ join_or (y # ys)"

definition query_text :: "(string \<times> string) list \<Rightarrow> string" where
  "query_text filters = join_or (map predicate_text filters)"

text \<open>
  The part of the expression language of \<open>query\<close> that such a text can fall in is
  read back here: comparisons of a column named between backticks with a string
  literal between double quotes, joined by \<open>|\<close>, spaced as the source spaces them. A
  name is made of letters, digits, \<open>_\<close>, \<open>/\<close> and spaces. A literal ends at the next
  double quote, and one with a backslash, a line feed or a carriage return (Python
  escapes and line ends) is not read. Every other text is outside this model: the
  result is \<open>None\<close>, and \<open>query\<close> answers \<open>QueryNotModelled\<close>.
\<close>

definition name_char :: "char \<Rightarrow> bool" where
  "name_char c \<longleftrightarrow>
     c \<in> set ''abcdefghijklmnopqrstuvwxyzABCDEFGHIJKLMNOPQRSTUVWXYZ0123456789_/ ''"

definition literal_char :: "char \<Rightarrow> bool" where
  "literal_char c \<longleftrightarrow> c \<noteq> dquote \<and> c \<noteq> backslash \<and> c \<noteq> CHR 0x0A \<and> c \<noteq> CHR 0x0D"

fun strip_prefix :: "string \<Rightarrow> string \<Rightarrow> string option" where
  "strip_prefix [] s = Some s"
| "strip_prefix (p # ps) [] = None"
| "strip_prefix (p # ps) (c # cs) = (if p = c then strip_prefix ps cs else None)"

definition parse_comparison :: "string \<Rightarrow> ((string \<times> string) \<times> string) option" where
  "parse_comparison s =
     (case strip_prefix [backtick] s of
        None \<Rightarrow> None
      | Some s1 \<Rightarrow>
          (let nm = takeWhile (\<lambda>c. c \<noteq> backtick) s1;
               s2 = dropWhile (\<lambda>c. c \<noteq> backtick) s1
           in if nm = [] \<or> \<not> list_all name_char nm then None
              else (case strip_prefix (backtick # '' == '' @ [dquote]) s2 of
                      None \<Rightarrow> None
                    | Some s3 \<Rightarrow>
                        (let v = takeWhile (\<lambda>c. c \<noteq> dquote) s3;
                             s4 = dropWhile (\<lambda>c. c \<noteq> dquote) s3
                         in if \<not> list_all literal_char v then None
                            else (case strip_prefix [dquote] s4 of
                                    None \<Rightarrow> None
                                  | Some s5 \<Rightarrow> Some ((nm, v), s5))))))"

function parse_expr :: "string \<Rightarrow> (string \<times> string) list option" where
  "parse_expr s =
     (case parse_comparison s of
        None \<Rightarrow> None
      | Some (p, rest) \<Rightarrow>
          if rest = [] then Some [p]
          else (case strip_prefix '' | '' rest of
                  None \<Rightarrow> None
                | Some s' \<Rightarrow> map_option ((#) p) (parse_expr s')))"
  by pat_completeness auto
termination
proof (relation "measure length")
  show "wf (measure length)" by simp
next
  fix s :: string and x2 x y rest s'
  assume pc: "parse_comparison s = Some x2" and x2: "(x, y) = x2" and "y \<noteq> []"
    and sp: "strip_prefix '' | '' y = Some s'"
  have len: "length u = length p + length u'" if "strip_prefix p u = Some u'" for p u u'
    using that by (induction p u rule: strip_prefix.induct) (auto split: if_splits)
  have dw: "length (dropWhile P xs) \<le> length xs" for P and xs :: string
    by (induction xs) auto
  from pc x2 obtain s1 s3 where
    a: "strip_prefix [backtick] s = Some s1" and
    b: "strip_prefix [dquote] (dropWhile (\<lambda>c. c \<noteq> dquote) s3) = Some y" and
    c: "strip_prefix (backtick # '' == '' @ [dquote]) (dropWhile (\<lambda>c. c \<noteq> backtick) s1)
        = Some s3"
    by (auto simp: parse_comparison_def Let_def split: option.splits if_splits)
  have "length y < length s3"
    using len [OF b] dw [of "\<lambda>c. c \<noteq> dquote" s3] by simp
  moreover have "length s3 < length s1"
    using len [OF c] dw [of "\<lambda>c. c \<noteq> backtick" s1] by simp
  moreover have "length s1 < length s"
    using len [OF a] by simp
  moreover have "length s' \<le> length y"
    using len [OF sp] by simp
  ultimately show "(s', s) \<in> measure length" by simp
qed

declare parse_expr.simps [simp del]

text \<open>
  \<open>query\<close>: every name of the expression must be a column
  (\<open>UndefinedVariableError\<close> otherwise); a row stays when one of the comparisons
  holds of it, and a cell equals a string literal only when it is that string.
\<close>

definition matches :: "frame \<Rightarrow> (string \<times> string) list \<Rightarrow> cell list \<Rightarrow> bool" where
  "matches d ps r = list_ex (\<lambda>(c, v). cellv d c r = Str v) ps"

definition query :: "frame \<Rightarrow> string \<Rightarrow> error + frame" where
  "query d e =
     (case parse_expr e of
        None \<Rightarrow> Inl QueryNotModelled
      | Some ps \<Rightarrow>
          (case find (\<lambda>(c, v). c \<notin> set (names d)) ps of
             Some (c, v) \<Rightarrow> Inl (UndefinedVariableError c)
           | None \<Rightarrow> Inr (d\<lparr>rows := filter (matches d ps) (rows d)\<rparr>)))"

section \<open>\<open>summary_total_by\<close>\<close>

text \<open>The two shapes of the return value: the one record popped off, or the list.\<close>

datatype result = One row_dict | Many "row_dict list"

definition aggregate :: "frame \<Rightarrow> group_arg \<Rightarrow> (string \<times> string) list \<Rightarrow> error + row_dict list" where
  "aggregate d groups filters =
     (if length filters = 0 then groupby_sum_records d groups
      else (case query d (query_text filters) of
              Inl e \<Rightarrow> Inl e
            | Inr filtered_data \<Rightarrow> groupby_sum_records filtered_data groups))"

definition summary_total_by :: "frame \<Rightarrow> group_arg \<Rightarrow> (string \<times> string) list \<Rightarrow> error + result" where
  "summary_total_by d groups filters =
     (case aggregate d groups filters of
        Inl e \<Rightarrow> Inl e
      | Inr data \<Rightarrow> Inr (if length data = 1 then One (last data) else Many data))"

fun records_of :: "result \<Rightarrow> row_dict list" where
  "records_of (One r) = [r]"
| "records_of (Many rs) = rs"

section \<open>\<open>urllib.parse.unquote\<close>\<close>

text \<open>
  \<open>unquote\<close> returns a string without \<open>%\<close> as it is. Otherwise a \<open>%\<close> followed by
  two hexadecimal digits becomes the byte they name, any other \<open>%\<close> stays
  (\<open>unquote_to_bytes\<close>), and the bytes are decoded as UTF-8 with
  \<open>errors='replace'\<close>. Strings are UTF-8 byte strings here, so decoding keeps a
  well-formed sequence and puts the three bytes of U+FFFD for each ill-formed part.
\<close>

definition hexval :: "char \<Rightarrow> nat option" where
  "hexval c =
     (let n = of_char c :: nat in
      if 48 \<le> n \<and> n \<le> 57 then Some (n - 48)
      else if 65 \<le> n \<and> n \<le> 70 then Some (n - 55)
      else if 97 \<le> n \<and> n \<le> 102 then Some (n - 87)
      else None)"

fun unquote_to_bytes :: "string \<Rightarrow> string" where
  "unquote_to_bytes (c # h1 # h2 # cs) =
     (if c = CHR ''%'' then
        (case (hexval h1, hexval h2) of
           (Some a, Some b) \<Rightarrow> char_of (16 * a + b) # unquote_to_bytes cs
         | _ \<Rightarrow> c # unquote_to_bytes (h1 # h2 # cs))
      else c # unquote_to_bytes (h1 # h2 # cs))"
| "unquote_to_bytes cs = cs"

text \<open>
  The UTF-8 decoder of CPython with \<open>errors='replace'\<close>. A lead byte announces a
  sequence of two, three or four bytes; the second byte must be a continuation byte
  (\<open>0x80..0xBF\<close>) in the range its lead byte allows, the third and fourth any
  continuation byte. A byte that cannot start a sequence is replaced alone; a
  sequence that breaks off is replaced as far as it was well-formed, and decoding
  goes on at the byte that broke it.
\<close>

definition byte :: "char \<Rightarrow> nat" where
  "byte c = of_char c"

definition continuation :: "char \<Rightarrow> bool" where
  "continuation c \<longleftrightarrow> 128 \<le> byte c \<and> byte c < 192"

definition replacement :: string where
  "replacement = [char_of (239 :: nat), char_of (191 :: nat), char_of (189 :: nat)]"

definition second_ok :: "char \<Rightarrow> char \<Rightarrow> bool" where
  "second_ok b b2 \<longleftrightarrow>
     continuation b2 \<and>
     \<not> (byte b = 224 \<and> byte b2 < 160) \<and> \<not> (byte b = 237 \<and> 160 \<le> byte b2) \<and>
     \<not> (byte b = 240 \<and> byte b2 < 144) \<and> \<not> (byte b = 244 \<and> 144 \<le> byte b2)"

fun utf8_replace :: "string \<Rightarrow> string" where
  "utf8_replace [] = []"
| "utf8_replace (b # bs) =
     (if byte b < 128 then b # utf8_replace bs
      else if byte b < 194 \<or> 245 \<le> byte b then replacement @ utf8_replace bs
      else (case bs of
              [] \<Rightarrow> replacement
            | b2 # bs2 \<Rightarrow>
                if \<not> second_ok b b2 then replacement @ utf8_replace bs
                else if byte b < 224 then b # b2 # utf8_replace bs2
                else (case bs2 of
                        [] \<Rightarrow> replacement
                      | b3 # bs3 \<Rightarrow>
                          if \<not> continuation b3 then replacement @ utf8_replace bs2
                          else if byte b < 240 then b # b2 # b3 # utf8_replace bs3
                          else (case bs3 of
                                  [] \<Rightarrow> replacement
                                | b4 # bs4 \<Rightarrow>
                                    if \<not> continuation b4
                                      then replacement @ utf8_replace bs3
                                    else b # b2 # b3 # b4 # utf8_replace bs4))))"

definition unquote :: "string \<Rightarrow> string" where
  "unquote s =
     (if CHR ''%'' \<notin> set s then s else utf8_replace (unquote_to_bytes s))"

section \<open>The controller and the endpoints\<close>

record controller =
  data :: store

definition on_df :: "store \<Rightarrow> (frame \<Rightarrow> error + 'a) \<Rightarrow> error + 'a" where
  "on_df s f = (case df s of None \<Rightarrow> Inl AttributeError | Some d \<Rightarrow> f d)"

definition kabupaten_kota :: string where
  "kabupaten_kota = ''nama_kabupaten/kota''"

definition Controller_display_raw :: "controller \<Rightarrow> error + row_dict list" where
  "Controller_display_raw ctl = on_df (data ctl) (\<lambda>d. Inr (select_all d))"

definition Controller_summary :: "controller \<Rightarrow> error + result" where
  "Controller_summary ctl =
     on_df (data ctl) (\<lambda>d. summary_total_by d (Label ''nama_provinsi'') [])"

definition Controller_summary_cities :: "controller \<Rightarrow> error + result" where
  "Controller_summary_cities ctl =
     on_df (data ctl) (\<lambda>d.
       case get_column_names d ''nama_provinsi'' kabupaten_kota of
         Inl e \<Rightarrow> Inl e
       | Inr groups \<Rightarrow> summary_total_by d (Labels groups) [])"

definition Controller_summary_districts :: "controller \<Rightarrow> string list \<Rightarrow> error + result" where
  "Controller_summary_districts ctl cities =
     on_df (data ctl) (\<lambda>d.
       case get_column_names d ''nama_provinsi'' ''nama_kecamatan'' of
         Inl e \<Rightarrow> Inl e
       | Inr groups \<Rightarrow>
           summary_total_by d (Labels groups)
             (map (\<lambda>city. (kabupaten_kota, unquote city)) cities))"

definition Controller_summary_sub_districts ::
  "controller \<Rightarrow> string list \<Rightarrow> string list \<Rightarrow> error + result" where
  "Controller_summary_sub_districts ctl cities districts =
     on_df (data ctl) (\<lambda>d.
       case get_column_names d ''nama_provinsi'' ''nama_kelurahan'' of
         Inl e \<Rightarrow> Inl e
       | Inr groups \<Rightarrow>
           summary_total_by d (Labels groups)
             (map (\<lambda>city. (kabupaten_kota, unquote city)) cities
              @ map (\<lambda>district. (''nama_kecamatan'', unquote district)) districts))"

definition Controller_summary_city :: "controller \<Rightarrow> string \<Rightarrow> error + result" where
  "Controller_summary_city ctl city =
     on_df (data ctl) (\<lambda>d.
       summary_total_by d (Label kabupaten_kota) [(kabupaten_kota, unquote city)])"

definition Controller_summary_district :: "controller \<Rightarrow> string \<Rightarrow> error + result" where
  "Controller_summary_district ctl district =
     on_df (data ctl) (\<lambda>d.
       summary_total_by d (Label ''nama_kecamatan'') [(''nama_kecamatan'', unquote district)])"

definition Controller_summary_sub_district :: "controller \<Rightarrow> string \<Rightarrow> error + result" where
  "Controller_summary_sub_district ctl sub_district =
     on_df (data ctl) (\<lambda>d.
       summary_total_by d (Label ''nama_kelurahan'')
         [(''nama_kelurahan'', unquote sub_district)])"

text \<open>The handler of \<open>GET /city/{city}\<close>; \<open>city\<close> is the path parameter it is given.\<close>

definition summary_city :: "controller \<Rightarrow> string \<Rightarrow> error + result" where
  "summary_city ctl city = Controller_summary_city ctl city"

text \<open>
  The request itself, as the server runs it: uvicorn hands the application the path
  of the request percent-decoded (by \<open>unquote\<close>), and the route \<open>/city/{city}\<close> of
  \<open>@app.get\<close> matches a decoded path \<open>/city/\<close> followed by one non-empty segment
  without a slash, which is the \<open>city\<close> the handler is called with.
\<close>

definition get_city :: "controller \<Rightarrow> string \<Rightarrow> error + result" where
  "get_city ctl raw_path =
     (case strip_prefix ''/city/'' (unquote raw_path) of
        None \<Rightarrow> Inl NoRouteMatch
      | Some city \<Rightarrow>
          if city = [] \<or> CHR ''/'' \<in> set city then Inl NoRouteMatch
          else summary_city ctl city)"

text \<open>
  What a client does to request a city by name: percent-encoding (RFC 3986), which
  keeps letters, digits and \<open>-._~\<close> and writes every other byte as \<open>%\<close> and two
  hexadecimal digits.
\<close>

definition unreserved :: "char \<Rightarrow> bool" where
  "unreserved c \<longleftrightarrow>
     c \<in> set ''abcdefghijklmnopqrstuvwxyzABCDEFGHIJKLMNOPQRSTUVWXYZ0123456789-._~''"

definition hexdigit :: "nat \<Rightarrow> char" where
  "hexdigit n = (if n < 10 then char_of (48 + n) else char_of (55 + n))"

fun spec_percent_encode :: "string \<Rightarrow> string" where
  "spec_percent_encode [] = []"
| "spec_percent_encode (c # cs) =
     (if unreserved c then c # spec_percent_encode cs
      else CHR ''%'' # hexdigit (byte c div 16) # hexdigit (byte c mod 16)
             # spec_percent_encode cs)"

section \<open>Queries against the object, with its state\<close>





section \<open>Observations on results\<close>

text \<open>
  The value of a field of a record, the sum of an integer field over records, the
  sum of an integer column over the rows of a frame, and the tuple of the group
  fields of a record.
\<close>

definition field :: "row_dict \<Rightarrow> string \<Rightarrow> cell" where
  "field r f = (case map_of r f of Some v \<Rightarrow> v | None \<Rightarrow> NaN)"

definition field_sum :: "string \<Rightarrow> row_dict list \<Rightarrow> 64 word" where
  "field_sum f rs = sum_list (map (\<lambda>r. int_val (field r f)) rs)"

definition column_total :: "frame \<Rightarrow> string \<Rightarrow> 64 word" where
  "column_total d f = sum_list (map (\<lambda>r. int_val (cellv d f r)) (rows d))"

definition group_tuple :: "string list \<Rightarrow> row_dict \<Rightarrow> cell list" where
  "group_tuple ks r = map (field r) ks"



text \<open>
  A filter whose text is read back as it was meant: a column name of the kind above
  and a value without double quote, backslash or line end.
\<close>

definition safe_filter :: "string \<times> string \<Rightarrow> bool" where
  "safe_filter p \<longleftrightarrow>
     fst p \<noteq> [] \<and> list_all name_char (fst p) \<and> list_all literal_char (snd p)"
section \<open>Example frames\<close>

definition layout_2014 :: frame where
  "layout_2014 =
     \<lparr>cols = [(''nama_provinsi'', Object), (''nama_kabupaten/kota'', Object),
              (''nama_kecamatan'', Object), (''nama_kelurahan'', Object),
              (''strata_II'', Int64), (''strata_III'', Int64)],
      rows = [[Str ''PROVINSI DKI JAKARTA'', Str ''JAKARTA UTARA'', Str ''KOJA'',
               Str ''LAGOA'', I64 7, I64 1],
              [Str ''PROVINSI DKI JAKARTA'', Str ''JAKARTA BARAT'', Str ''TAMBORA'',
               Str ''ANGKE'', I64 5, I64 0],
              [Str ''PROVINSI DKI JAKARTA'', Str ''JAKARTA UTARA'', Str ''KOJA'',
               Str ''KOJA'', I64 4, I64 1]]\<rparr>"

definition app :: controller where
  "app = \<lparr>data = \<lparr>path = ''data-dki-menurut-pendidikan-tahun-2014.csv'',
                       df = Some layout_2014\<rparr>\<rparr>"

definition sorted_layout :: frame where
  "sorted_layout =
     \<lparr>cols = [(''nama_kecamatan'', Object), (''nama_kelurahan'', Object),
              (''strata_III'', Int64)],
      rows = [[Str ''KOJA'', Str ''LAGOA'', I64 1]]\<rparr>"


text \<open>
  A filter value with a double quote in it,
  \<^verbatim>\<open>X" | `nama_kabupaten/kota` == "JAKARTA UTARA\<close>:
  what \<open>GET /districts?city=...\<close> passes on when the query parameter holds these
  characters percent-encoded.
\<close>

definition injected_city :: string where
  "injected_city =
     ''X'' @ [dquote] @ '' | '' @ [backtick] @ ''nama_kabupaten/kota'' @ [backtick] @ '' == ''
       @ [dquote] @ ''JAKARTA UTARA''"


section \<open>Properties of \<open>get_column_names\<close>\<close>

lemma get_loc_nth: "distinct xs \<Longrightarrow> i < length xs \<Longrightarrow> get_loc xs (xs ! i) = Some i"
proof (induction xs arbitrary: i)
  case Nil
  then show ?case by simp
next
  case (Cons x xs)
  then show ?case by (cases i) auto
qed

lemma get_loc_None: "get_loc xs l = None \<longleftrightarrow> l \<notin> set xs"
  by (induction xs) auto

lemma get_loc_Some: "get_loc xs l = Some i \<Longrightarrow> i < length xs \<and> xs ! i = l"
  by (induction xs arbitrary: i) (auto split: if_splits)

lemma filter_range: "filter (\<lambda>k. i \<le> k \<and> k \<le> j) [0..<n] = [i..<min n (Suc j)]"
proof (induction n)
  case 0
  show ?case by simp
next
  case (Suc n)
  show ?case
  proof (cases "n \<le> j")
    case True
    then have m: "min n (Suc j) = n" "min (Suc n) (Suc j) = Suc n" by simp_all
    show ?thesis using Suc True by (simp add: m)
  next
    case False
    then have m: "min n (Suc j) = Suc j" "min (Suc n) (Suc j) = Suc j" by simp_all
    show ?thesis using Suc False by (simp add: m)
  qed
qed

lemma slice_nth: "j < length xs \<Longrightarrow> take (Suc j - i) (drop i xs) = map ((!) xs) [i..<Suc j]"
proof -
  assume j: "j < length xs"
  have "take (Suc j - i) (drop i (map ((!) xs) [0..<length xs])) = map ((!) xs) [i..<Suc j]"
    using j by (cases "i \<le> Suc j") (simp_all add: take_map drop_map)
  then show ?thesis by (simp add: map_nth)
qed

lemma position_nth: "distinct xs \<Longrightarrow> i < length xs \<Longrightarrow> position xs (xs ! i) = i"
  by (simp add: position_def get_loc_nth)

lemma columns_between_slice:
  assumes d: "distinct xs" and a: "get_loc xs a = Some i" and b: "get_loc xs b = Some j"
    and o: "i \<le> j"
  shows "spec_columns_between xs a b = take (Suc j - i) (drop i xs)"
proof -
  have j: "j < length xs" using get_loc_Some [OF b] by simp
  have "spec_columns_between xs a b
        = filter (\<lambda>c. i \<le> position xs c \<and> position xs c \<le> j) (map ((!) xs) [0..<length xs])"
    using a b o by (simp add: spec_columns_between_def position_def map_nth min_def max_def)
  also have "\<dots> = map ((!) xs) (filter (\<lambda>k. i \<le> k \<and> k \<le> j) [0..<length xs])"
    unfolding filter_map
    by (rule arg_cong [where f = "map ((!) xs)"], rule filter_cong)
       (simp_all add: position_nth [OF d])
  also have "\<dots> = map ((!) xs) [i..<Suc j]"
  proof -
    have "min (length xs) (Suc j) = Suc j" using j by simp
    then show ?thesis by (simp only: filter_range)
  qed
  finally show ?thesis using slice_nth [OF j] by simp
qed

text \<open>
  C6, as the code has it. When both boundary labels are columns (the labels being
  distinct, as \<open>read_csv\<close> makes them) and the first is not to the right of the
  second, \<open>get_column_names\<close> returns exactly the columns lying between the two,
  both included, in the order of the frame.
\<close>

theorem get_column_names_between:
  assumes "distinct (names d)" and "frm \<in> set (names d)" and "until \<in> set (names d)"
    and "position (names d) frm \<le> position (names d) until"
  shows "get_column_names d frm until = Inr (spec_columns_between (names d) frm until) \<and>
         frm \<in> set (spec_columns_between (names d) frm until) \<and>
         until \<in> set (spec_columns_between (names d) frm until)"
proof -
  obtain i where i: "get_loc (names d) frm = Some i"
    using assms(2) get_loc_None [of "names d" frm] by (cases "get_loc (names d) frm") auto
  obtain j where j: "get_loc (names d) until = Some j"
    using assms(3) get_loc_None [of "names d" until] by (cases "get_loc (names d) until") auto
  have o: "i \<le> j" using assms(4) i j by (simp add: position_def)
  have "get_column_names d frm until = Inr (spec_columns_between (names d) frm until)"
    using i j columns_between_slice [OF assms(1) i j o]
    by (simp add: get_column_names_def get_slice_bound_def)
  then show ?thesis using assms(2,3,4) by (simp add: spec_columns_between_def)
qed

theorem get_column_names_between_witness:
  "distinct (names layout_2014) \<and>
   ''nama_provinsi'' \<in> set (names layout_2014) \<and>
   ''nama_kabupaten/kota'' \<in> set (names layout_2014) \<and>
   position (names layout_2014) ''nama_provinsi''
     \<le> position (names layout_2014) ''nama_kabupaten/kota'' \<and>
   get_column_names layout_2014 ''nama_provinsi'' ''nama_kabupaten/kota''
     = Inr [''nama_provinsi'', ''nama_kabupaten/kota'']"
proof -
  have h: "distinct (names layout_2014)" "''nama_provinsi'' \<in> set (names layout_2014)"
    "''nama_kabupaten/kota'' \<in> set (names layout_2014)"
    "position (names layout_2014) ''nama_provinsi''
       \<le> position (names layout_2014) ''nama_kabupaten/kota''"
    by (simp_all add: names_def layout_2014_def position_def)
  have "spec_columns_between (names layout_2014) ''nama_provinsi'' ''nama_kabupaten/kota''
        = [''nama_provinsi'', ''nama_kabupaten/kota'']"
    by (simp add: spec_columns_between_def position_def names_def layout_2014_def)
  then show ?thesis using h get_column_names_between [OF h] by simp
qed

theorem get_column_names_between_counterexample:
  "''nama_kabupaten/kota'' \<in> set (names layout_2014) \<and>
   ''nama_provinsi'' \<in> set (names layout_2014) \<and>
   get_column_names layout_2014 ''nama_kabupaten/kota'' ''nama_provinsi'' = Inr [] \<and>
   spec_columns_between (names layout_2014) ''nama_kabupaten/kota'' ''nama_provinsi''
     = [''nama_provinsi'', ''nama_kabupaten/kota'']"
  by (simp add: names_def layout_2014_def get_column_names_def get_slice_bound_def
        spec_columns_between_def position_def)

text \<open>
  C7, as the code has it. When a boundary label is not a column and the (distinct)
  column labels are neither in increasing nor in decreasing order,
  \<open>get_column_names\<close> raises \<open>KeyError\<close> for the first absent boundary. (When the labels are in order, pandas
  places the absent label by binary search and returns a slice.)
\<close>

theorem get_column_names_absent:
  assumes "frm \<notin> set (names d) \<or> until \<notin> set (names d)"
    and "\<not> is_monotonic_increasing (names d)"
    and "\<not> is_monotonic_decreasing (names d)"
    and "distinct (names d)"
  shows "get_column_names d frm until
         = Inl (KeyError (if frm \<notin> set (names d) then frm else until))"
proof (cases "frm \<in> set (names d)")
  case True
  then obtain i where i: "get_loc (names d) frm = Some i"
    using get_loc_None [of "names d" frm] by (cases "get_loc (names d) frm") auto
  from True assms(1) have "get_loc (names d) until = None" by (simp add: get_loc_None)
  then show ?thesis
    using True i assms(2,3)
    by (simp add: get_column_names_def get_slice_bound_def searchsorted_monotonic_def)
next
  case False
  then have "get_loc (names d) frm = None" by (simp add: get_loc_None)
  then show ?thesis
    using False assms(2,3)
    by (simp add: get_column_names_def get_slice_bound_def searchsorted_monotonic_def)
qed

theorem get_column_names_absent_witness:
  "''strata_I'' \<notin> set (names layout_2014) \<and>
   \<not> is_monotonic_increasing (names layout_2014) \<and>
   \<not> is_monotonic_decreasing (names layout_2014) \<and>
   get_column_names layout_2014 ''nama_provinsi'' ''strata_I'' = Inl (KeyError ''strata_I'')"
proof -
  have h: "''nama_provinsi'' \<notin> set (names layout_2014) \<or> ''strata_I'' \<notin> set (names layout_2014)"
    "\<not> is_monotonic_increasing (names layout_2014)"
    "\<not> is_monotonic_decreasing (names layout_2014)"
    "distinct (names layout_2014)"
    by (simp_all add: names_def layout_2014_def is_monotonic_increasing_def
          is_monotonic_decreasing_def)
  have p: "''nama_provinsi'' \<in> set (names layout_2014)"
    by (simp add: names_def layout_2014_def)
  have q: "''strata_I'' \<notin> set (names layout_2014)"
    by (simp add: names_def layout_2014_def)
  show ?thesis using h p q get_column_names_absent [OF h] by simp
qed

theorem get_column_names_absent_counterexample:
  "''nama_provinsi'' \<notin> set (names sorted_layout) \<and>
   get_column_names sorted_layout ''nama_provinsi'' ''nama_kelurahan'' = Inr []"
  by (simp add: names_def sorted_layout_def get_column_names_def get_slice_bound_def
        searchsorted_monotonic_def is_monotonic_increasing_def)

section \<open>The return shape of \<open>summary_total_by\<close>\<close>

lemma aggregate_city_utara:
  "aggregate layout_2014 (Label kabupaten_kota) [(kabupaten_kota, ''JAKARTA UTARA'')]
     = Inr [[(''nama_kabupaten/kota'', Str ''JAKARTA UTARA''), (''strata_II'', I64 11),
             (''strata_III'', I64 2)]]"
  by code_simp

lemma aggregate_city_all:
  "aggregate layout_2014 (Label kabupaten_kota) []
     = Inr [[(''nama_kabupaten/kota'', Str ''JAKARTA BARAT''), (''strata_II'', I64 5),
             (''strata_III'', I64 0)],
            [(''nama_kabupaten/kota'', Str ''JAKARTA UTARA''), (''strata_II'', I64 11),
             (''strata_III'', I64 2)]]"
  by code_simp

lemma aggregate_city_bogor:
  "aggregate layout_2014 (Label kabupaten_kota) [(kabupaten_kota, ''BOGOR'')] = Inr []"
  by code_simp

text \<open>
  C3. Whatever the groups and the filters, when the aggregation yields exactly one
  record \<open>summary_total_by\<close> returns that record itself, and when it yields none or
  several it returns the list of records.
\<close>

theorem summary_total_by_shape:
  assumes "aggregate d groups filters = Inr recs"
  shows "(length recs = 1 \<longrightarrow> summary_total_by d groups filters = Inr (One (hd recs))) \<and>
         (length recs \<noteq> 1 \<longrightarrow> summary_total_by d groups filters = Inr (Many recs))"
proof -
  have "length recs = 1 \<Longrightarrow> last recs = hd recs"
    by (cases recs) auto
  then show ?thesis using assms by (auto simp: summary_total_by_def)
qed

theorem summary_total_by_shape_witness:
  "summary_total_by layout_2014 (Label kabupaten_kota) [(kabupaten_kota, ''JAKARTA UTARA'')]
     = Inr (One [(''nama_kabupaten/kota'', Str ''JAKARTA UTARA''), (''strata_II'', I64 11),
                 (''strata_III'', I64 2)]) \<and>
   summary_total_by layout_2014 (Label kabupaten_kota) []
     = Inr (Many [[(''nama_kabupaten/kota'', Str ''JAKARTA BARAT''), (''strata_II'', I64 5),
                   (''strata_III'', I64 0)],
                  [(''nama_kabupaten/kota'', Str ''JAKARTA UTARA''), (''strata_II'', I64 11),
                   (''strata_III'', I64 2)]]) \<and>
   summary_total_by layout_2014 (Label kabupaten_kota) [(kabupaten_kota, ''BOGOR'')]
     = Inr (Many [])"
  using summary_total_by_shape [OF aggregate_city_utara]
    summary_total_by_shape [OF aggregate_city_all]
    summary_total_by_shape [OF aggregate_city_bogor]
  by simp

section \<open>The endpoint \<open>/city/{city}\<close>\<close>

lemma unquote_to_bytes_Cons:
  "c \<noteq> CHR ''%'' \<Longrightarrow> unquote_to_bytes (c # xs) = c # unquote_to_bytes xs"
proof (cases xs)
  case Nil
  then show ?thesis by simp
next
  case (Cons h1 ys)
  assume "c \<noteq> CHR ''%''"
  then show ?thesis using Cons by (cases ys) simp_all
qed

lemma unquote_to_bytes_append:
  "CHR ''%'' \<notin> set a \<Longrightarrow> unquote_to_bytes (a @ b) = a @ unquote_to_bytes b"
proof (induction a)
  case Nil
  show ?case by simp
next
  case (Cons c a)
  then have "c \<noteq> CHR ''%''" by auto
  then have "unquote_to_bytes (c # a @ b) = c # unquote_to_bytes (a @ b)"
    by (rule unquote_to_bytes_Cons)
  then show ?case using Cons by simp
qed

lemma hexval_hexdigit: "n < 16 \<Longrightarrow> hexval (hexdigit n) = Some n"
  by (auto simp: hexval_def hexdigit_def Let_def)

lemma byte_split: "char_of (16 * (byte c div 16) + byte c mod 16) = c"
  by (simp add: byte_def)

lemma char_of_byte: "char_of (byte c) = c"
  by (simp add: byte_def)

lemma unreserved_not_percent: "unreserved c \<Longrightarrow> c \<noteq> CHR ''%''"
  by (auto simp: unreserved_def)

lemma unquote_to_bytes_encode: "unquote_to_bytes (spec_percent_encode s) = s"
proof (induction s)
  case Nil
  show ?case by simp
next
  case (Cons c s)
  show ?case
  proof (cases "unreserved c")
    case True
    then show ?thesis
      using Cons by (simp add: unquote_to_bytes_Cons unreserved_not_percent)
  next
    case False
    have "byte c div 16 < 16" "byte c mod 16 < 16"
      by (simp_all add: byte_def div_less_iff_less_mult)
    then show ?thesis
      using False Cons by (simp add: hexval_hexdigit char_of_byte)
  qed
qed

lemma encode_percent_free:
  "CHR ''%'' \<notin> set (spec_percent_encode s) \<Longrightarrow> spec_percent_encode s = s"
  by (induction s) (auto split: if_splits)

lemma utf8_replace_ascii:
  "\<forall>c \<in> set a. byte c < 128 \<Longrightarrow> utf8_replace (a @ b) = a @ utf8_replace b"
  by (induction a) simp_all

lemma utf8_replace_ascii_id: "\<forall>c \<in> set s. byte c < 128 \<Longrightarrow> utf8_replace s = s"
  using utf8_replace_ascii [of s "[]"] by simp

lemma unquote_city_path:
  assumes "utf8_replace s = s"
  shows "unquote (''/city/'' @ spec_percent_encode s) = ''/city/'' @ s"
proof (cases "CHR ''%'' \<in> set (spec_percent_encode s)")
  case False
  then have "CHR ''%'' \<notin> set (''/city/'' @ spec_percent_encode s)" by simp
  then have "unquote (''/city/'' @ spec_percent_encode s) = ''/city/'' @ spec_percent_encode s"
    unfolding unquote_def by (rule if_P)
  then show ?thesis unfolding encode_percent_free [OF False] .
next
  case True
  have p: "CHR ''%'' \<notin> set ''/city/''" by simp
  have a: "unquote_to_bytes (''/city/'' @ spec_percent_encode s) = ''/city/'' @ s"
    unfolding unquote_to_bytes_append [OF p] unquote_to_bytes_encode ..
  have "\<forall>c \<in> set ''/city/''. byte c < 128" by (simp add: byte_def)
  then have b: "utf8_replace (''/city/'' @ s) = ''/city/'' @ utf8_replace s"
    by (rule utf8_replace_ascii)
  from True have "\<not> CHR ''%'' \<notin> set (''/city/'' @ spec_percent_encode s)" by simp
  then have "unquote (''/city/'' @ spec_percent_encode s)
             = utf8_replace (unquote_to_bytes (''/city/'' @ spec_percent_encode s))"
    unfolding unquote_def by (rule if_not_P)
  then show ?thesis unfolding a b assms .
qed

lemma strip_prefix_append: "strip_prefix p (p @ s) = Some s"
  by (induction p) auto

text \<open>
  C8, as the code has it. For every city name that is a well-formed UTF-8 string,
  not empty, without \<open>/\<close> and without \<open>%\<close>: requesting \<open>/city/\<close> followed by the
  percent-encoded name returns exactly what \<open>summary_total_by\<close> returns for the
  group field \<open>nama_kabupaten/kota\<close> and the one filter
  \<open>(nama_kabupaten/kota, name)\<close> on the frame the controller holds.
\<close>

theorem get_city_direct:
  assumes "df (data ctl) = Some d"
    and "city \<noteq> []" and "CHR ''/'' \<notin> set city" and "CHR ''%'' \<notin> set city"
    and "utf8_replace city = city"
  shows "get_city ctl (''/city/'' @ spec_percent_encode city)
         = summary_total_by d (Label ''nama_kabupaten/kota'')
             [(''nama_kabupaten/kota'', city)]"
proof -
  have "strip_prefix ''/city/'' (unquote (''/city/'' @ spec_percent_encode city)) = Some city"
    unfolding unquote_city_path [OF assms(5)] by (rule strip_prefix_append)
  moreover have "unquote city = city" using assms(4) by (simp add: unquote_def)
  ultimately show ?thesis
    using assms(1,2,3)
    by (simp add: get_city_def summary_city_def Controller_summary_city_def on_df_def
          kabupaten_kota_def)
qed

lemma summary_utara:
  "summary_total_by layout_2014 (Label ''nama_kabupaten/kota'')
     [(''nama_kabupaten/kota'', ''JAKARTA UTARA'')]
   = Inr (One [(''nama_kabupaten/kota'', Str ''JAKARTA UTARA''), (''strata_II'', I64 11),
               (''strata_III'', I64 2)])"
  by code_simp

lemma encode_jakarta_utara:
  "''/city/'' @ spec_percent_encode ''JAKARTA UTARA'' = ''/city/JAKARTA%20UTARA''"
  by code_simp

theorem get_city_direct_witness:
  "df (data app) = Some layout_2014 \<and>
   ''/city/'' @ spec_percent_encode ''JAKARTA UTARA'' = ''/city/JAKARTA%20UTARA'' \<and>
   utf8_replace ''JAKARTA UTARA'' = ''JAKARTA UTARA'' \<and>
   get_city app ''/city/JAKARTA%20UTARA''
     = summary_total_by layout_2014 (Label ''nama_kabupaten/kota'')
         [(''nama_kabupaten/kota'', ''JAKARTA UTARA'')] \<and>
   get_city app ''/city/JAKARTA%20UTARA''
     = Inr (One [(''nama_kabupaten/kota'', Str ''JAKARTA UTARA''), (''strata_II'', I64 11),
                 (''strata_III'', I64 2)])"
proof -
  have h: "df (data app) = Some layout_2014" "''JAKARTA UTARA'' \<noteq> []"
    "CHR ''/'' \<notin> set ''JAKARTA UTARA''" "CHR ''%'' \<notin> set ''JAKARTA UTARA''"
    by (simp_all add: app_def)
  have u: "utf8_replace ''JAKARTA UTARA'' = ''JAKARTA UTARA''"
    by code_simp
  have r: "get_city app ''/city/JAKARTA%20UTARA''
     = summary_total_by layout_2014 (Label ''nama_kabupaten/kota'')
         [(''nama_kabupaten/kota'', ''JAKARTA UTARA'')]"
    using get_city_direct [OF h u] unfolding encode_jakarta_utara .
  show ?thesis using h(1) u r summary_utara encode_jakarta_utara by (simp only: simp_thms)
qed

theorem get_city_direct_counterexample:
  "''/city/'' @ spec_percent_encode ''JAKARTA%20UTARA'' = ''/city/JAKARTA%2520UTARA'' \<and>
   get_city app ''/city/JAKARTA%2520UTARA''
     = Inr (One [(''nama_kabupaten/kota'', Str ''JAKARTA UTARA''), (''strata_II'', I64 11),
                 (''strata_III'', I64 2)]) \<and>
   summary_total_by layout_2014 (Label ''nama_kabupaten/kota'')
     [(''nama_kabupaten/kota'', ''JAKARTA%20UTARA'')] = Inr (Many [])"
  by code_simp

section \<open>Queries leave the object as it is\<close>





section \<open>The order of the returned records\<close>

lemma field_zip_append:
  assumes "distinct ks" "length k = length ks" "i < length ks"
  shows "field (zip ks k @ rest) (ks ! i) = k ! i"
  using assms by (simp add: field_def map_of_zip_nth)

lemma group_tuple_summary_row:
  assumes "distinct ks" "length k = length ks"
  shows "group_tuple ks (summary_row d ks k) = k"
proof (rule nth_equalityI)
  show "length (group_tuple ks (summary_row d ks k)) = length k"
    using assms by (simp add: group_tuple_def)
next
  fix i assume "i < length (group_tuple ks (summary_row d ks k))"
  then have i: "i < length ks" by (simp add: group_tuple_def)
  then show "group_tuple ks (summary_row d ks k) ! i = k ! i"
    using field_zip_append [OF assms i] by (simp add: group_tuple_def summary_row_def)
qed

lemma group_keys_length: "k \<in> set (group_keys d ks) \<Longrightarrow> length k = length ks"
  by (auto simp: group_keys_def key_of_def)

lemma group_keys_sorted: "sorted_wrt (<) (group_keys d ks)"
  by (simp add: group_keys_def strict_sorted_iff)

lemma groupby_sorted:
  assumes "groupby_sum_records d groups = Inr recs"
  shows "map (group_tuple (labels groups)) recs = group_keys d (labels groups)"
proof -
  from assms have dk: "distinct (labels groups)"
    and r: "recs = map (summary_row d (labels groups)) (group_keys d (labels groups))"
    by (auto simp: groupby_sum_records_def Let_def split: if_splits option.splits)
  have "map (group_tuple (labels groups)) recs
        = map (\<lambda>k. k) (group_keys d (labels groups))"
    unfolding r map_map
    by (rule map_cong) (simp_all add: group_tuple_summary_row [OF dk] group_keys_length)
  then show ?thesis by simp
qed

lemma aggregate_sorted:
  assumes "aggregate d groups filters = Inr recs"
  shows "sorted_wrt (<) (map (group_tuple (labels groups)) recs)"
proof (cases "length filters = 0")
  case True
  with assms have "groupby_sum_records d groups = Inr recs" by (simp add: aggregate_def)
  then show ?thesis using groupby_sorted group_keys_sorted by simp
next
  case False
  with assms obtain fd where "groupby_sum_records fd groups = Inr recs"
    by (auto simp: aggregate_def split: sum.splits)
  then show ?thesis using groupby_sorted group_keys_sorted by simp
qed

text \<open>
  C10. With or without filters and for any groups, the records that
  \<open>summary_total_by\<close> returns have their group-field tuples in strictly ascending
  order (the order of group keys above), whatever the order of the rows.
\<close>

theorem summary_total_by_sorted:
  assumes "summary_total_by d groups filters = Inr res"
  shows "sorted_wrt (<) (map (group_tuple (labels groups)) (records_of res))"
proof -
  from assms obtain recs where a: "aggregate d groups filters = Inr recs"
    and r: "res = (if length recs = 1 then One (last recs) else Many recs)"
    by (auto simp: summary_total_by_def split: sum.splits)
  show ?thesis
  proof (cases "length recs = 1")
    case True
    then show ?thesis using r by simp
  next
    case False
    then show ?thesis using r aggregate_sorted [OF a] by simp
  qed
qed

theorem summary_total_by_sorted_witness:
  "map (key_of layout_2014 [kabupaten_kota]) (rows layout_2014)
     = [[Str ''JAKARTA UTARA''], [Str ''JAKARTA BARAT''], [Str ''JAKARTA UTARA'']] \<and>
   summary_total_by layout_2014 (Label kabupaten_kota) []
     = Inr (Many [[(''nama_kabupaten/kota'', Str ''JAKARTA BARAT''), (''strata_II'', I64 5),
                   (''strata_III'', I64 0)],
                  [(''nama_kabupaten/kota'', Str ''JAKARTA UTARA''), (''strata_II'', I64 11),
                   (''strata_III'', I64 2)]]) \<and>
   sorted_wrt (<) [[Str ''JAKARTA BARAT''], [Str ''JAKARTA UTARA'']]"
proof -
  have e: "summary_total_by layout_2014 (Label kabupaten_kota) []
     = Inr (Many [[(''nama_kabupaten/kota'', Str ''JAKARTA BARAT''), (''strata_II'', I64 5),
                   (''strata_III'', I64 0)],
                  [(''nama_kabupaten/kota'', Str ''JAKARTA UTARA''), (''strata_II'', I64 11),
                   (''strata_III'', I64 2)]])"
    by code_simp
  have k: "map (key_of layout_2014 [kabupaten_kota]) (rows layout_2014)
     = [[Str ''JAKARTA UTARA''], [Str ''JAKARTA BARAT''], [Str ''JAKARTA UTARA'']]"
    by (simp add: key_of_def cellv_def names_def layout_2014_def kabupaten_kota_def)
  have "sorted_wrt (<) [[Str ''JAKARTA BARAT''], [Str ''JAKARTA UTARA'']]"
    using summary_total_by_sorted [OF e]
    by (simp add: group_tuple_def field_def kabupaten_kota_def)
  then show ?thesis using e k by simp
qed

section \<open>Conservation of totals\<close>

lemma sum_list_split:
  fixes g :: "'a \<Rightarrow> 64 word"
  shows "sum_list (map g xs)
         = sum_list (map g (filter P xs)) + sum_list (map g (filter (\<lambda>x. \<not> P x) xs))"
  by (induction xs) (simp_all add: algebra_simps)

lemma sum_by_keys:
  fixes g :: "'a \<Rightarrow> 64 word"
  assumes "distinct ks" and "\<forall>r \<in> set rs. key r \<in> set ks"
  shows "(\<Sum>k\<leftarrow>ks. sum_list (map g (filter (\<lambda>r. key r = k) rs))) = sum_list (map g rs)"
  using assms
proof (induction ks arbitrary: rs)
  case Nil
  then have "rs = []" by (cases rs) auto
  then show ?case by simp
next
  case (Cons k ks)
  let ?rest = "filter (\<lambda>r. \<not> key r = k) rs"
  have keys: "\<forall>r \<in> set ?rest. key r \<in> set ks" using Cons.prems(2) by auto
  have same: "filter (\<lambda>r. key r = k') ?rest = filter (\<lambda>r. key r = k') rs" if "k' \<in> set ks" for k'
  proof -
    have "k' \<noteq> k" using that Cons.prems(1) by auto
    then show ?thesis by (simp add: conj_commute) (rule filter_cong, auto)
  qed
  have "(\<Sum>k'\<leftarrow>ks. sum_list (map g (filter (\<lambda>r. key r = k') rs)))
        = (\<Sum>k'\<leftarrow>ks. sum_list (map g (filter (\<lambda>r. key r = k') ?rest)))"
    by (rule arg_cong [where f = sum_list], rule map_cong [OF refl]) (simp only: same)
  also have "\<dots> = sum_list (map g ?rest)"
    using Cons.IH [OF _ keys] Cons.prems(1) by simp
  finally show ?case
    using sum_list_split [of g rs "\<lambda>r. key r = k"] by simp
qed

lemma field_summary_row:
  assumes "f \<notin> set ks" and "f \<in> set (value_columns d ks)"
  shows "field (summary_row d ks k) f = I64 (group_sum d ks k f)"
proof -
  have "map_of (zip ks k) f = None"
    using assms(1) by (auto simp: map_of_eq_None_iff dest: set_zip_leftD)
  moreover have "map_of (map (\<lambda>c. (c, I64 (group_sum d ks k c))) (value_columns d ks)) f
                 = Some (I64 (group_sum d ks k f))"
    using assms(2) by (simp add: map_of_map_restrict)
  ultimately show ?thesis
    by (simp add: field_def summary_row_def map_add_def)
qed

lemma cellv_in_row:
  assumes "c \<in> set (names d)" and "length r = length (names d)"
  shows "cellv d c r \<in> set r"
proof -
  from assms have "map_of (zip (names d) r) c \<noteq> None"
    by (simp add: map_of_zip_is_None)
  then obtain v where v: "map_of (zip (names d) r) c = Some v" by auto
  then have "v \<in> set r" by (auto dest!: map_of_SomeD set_zip_rightD)
  with v show ?thesis by (simp add: cellv_def)
qed

lemma cleaned_cellv:
  assumes "cleaned d" and "c \<in> set (names d)" and "r \<in> set (rows d)"
  shows "cellv d c r \<noteq> NaN"
proof -
  from assms(1,3) have "length r = length (names d)" and "NaN \<notin> set r"
    by (auto simp: cleaned_def wf_frame_def no_nulls_def names_def)
  then show ?thesis using cellv_in_row [OF assms(2)] by metis
qed

lemma groupby_sum_records_Inr:
  assumes "groupby_sum_records d groups = Inr recs"
  shows "labels groups \<noteq> []" and "set (labels groups) \<subseteq> set (names d)"
    and "distinct (labels groups)"
    and "recs = map (summary_row d (labels groups)) (group_keys d (labels groups))"
  using assms
  by (auto simp: groupby_sum_records_def Let_def find_None_iff split: if_splits option.splits)

lemma groupby_sum_records_returns:
  assumes "labels groups \<noteq> []" and "set (labels groups) \<subseteq> set (names d)"
    and "distinct (labels groups)"
    and "rows d = [] \<or> value_columns d (labels groups) \<noteq> []"
  shows "groupby_sum_records d groups
         = Inr (map (summary_row d (labels groups)) (group_keys d (labels groups)))"
proof -
  have "find (\<lambda>k. k \<notin> set (names d)) (labels groups) = None"
    using assms(2) by (auto simp: find_None_iff)
  moreover have "\<not> list_ex (\<lambda>k. k \<notin> set (names d)) (labels groups)"
    using assms(2) by (auto simp: list_ex_iff)
  ultimately show ?thesis
    using assms(1,3,4) by (auto simp: groupby_sum_records_def Let_def)
qed

lemma group_keys_cover:
  assumes "cleaned d" and "set ks \<subseteq> set (names d)" and "r \<in> set (rows d)"
  shows "key_of d ks r \<in> set (group_keys d ks)"
proof -
  have "cellv d k r \<noteq> NaN" if "k \<in> set ks" for k
    using cleaned_cellv [OF assms(1) _ assms(3), of k] assms(2) that by blast
  then have "NaN \<notin> set (key_of d ks r)"
    by (fastforce simp: key_of_def)
  then show ?thesis using assms(3) by (auto simp: group_keys_def)
qed

lemma groupby_total:
  assumes c: "cleaned d" and g: "groupby_sum_records d groups = Inr recs"
    and f: "(f, Int64) \<in> set (cols d)" "f \<notin> set (labels groups)"
  shows "field_sum f recs = column_total d f"
proof -
  let ?ks = "labels groups"
  note ok = groupby_sum_records_Inr [OF g]
  have fv: "f \<in> set (value_columns d ?ks)"
    using f by (force simp: value_columns_def)
  have "field_sum f recs = (\<Sum>k\<leftarrow>group_keys d ?ks. group_sum d ?ks k f)"
    unfolding field_sum_def ok(4) map_map
    by (rule arg_cong [where f = sum_list], rule map_cong [OF refl])
       (simp add: field_summary_row [OF f(2) fv])
  also have "\<dots> = column_total d f"
    unfolding group_sum_def column_total_def
  proof (rule sum_by_keys)
    show "distinct (group_keys d ?ks)" by (simp add: group_keys_def)
    show "\<forall>r \<in> set (rows d). key_of d ?ks r \<in> set (group_keys d ?ks)"
      using group_keys_cover [OF c ok(2)] by blast
  qed
  finally show ?thesis .
qed

lemma records_of_shape:
  "records_of (if length recs = 1 then One (last recs) else Many recs) = recs"
  by (cases recs) auto

text \<open>
  C1, as the code has it. On a cleaned frame, for a filter-free call and an int64
  column that is not one of the group fields: when the call returns, the sum of that
  field over the returned records is the sum of the column over all rows (both with
  64-bit wrap-around); and the call returns when the group fields are columns, at
  least one and none twice. (A column that is itself a group field is a key of the
  result, not a sum.)
\<close>

theorem totals_conserved:
  assumes "cleaned d" and "(f, Int64) \<in> set (cols d)" and "f \<notin> set (labels groups)"
  shows "(summary_total_by d groups [] = Inr res \<longrightarrow>
            field_sum f (records_of res) = column_total d f) \<and>
         (labels groups \<noteq> [] \<and> distinct (labels groups) \<and>
          set (labels groups) \<subseteq> set (names d) \<longrightarrow>
            (\<exists>res'. summary_total_by d groups [] = Inr res'))"
proof (intro conjI impI)
  assume "summary_total_by d groups [] = Inr res"
  then obtain recs where g: "groupby_sum_records d groups = Inr recs"
    and r: "res = (if length recs = 1 then One (last recs) else Many recs)"
    by (auto simp: summary_total_by_def aggregate_def split: sum.splits)
  show "field_sum f (records_of res) = column_total d f"
    unfolding r records_of_shape by (rule groupby_total [OF assms(1) g assms(2,3)])
next
  assume "labels groups \<noteq> [] \<and> distinct (labels groups) \<and> set (labels groups) \<subseteq> set (names d)"
  moreover have "value_columns d (labels groups) \<noteq> []"
  proof -
    have "f \<in> set (value_columns d (labels groups))"
      using assms(2,3) by (force simp: value_columns_def)
    then show ?thesis by auto
  qed
  ultimately show "\<exists>res'. summary_total_by d groups [] = Inr res'"
    by (simp add: summary_total_by_def aggregate_def groupby_sum_records_returns)
qed

lemma cleaned_layout_2014: "cleaned layout_2014"
  by (simp add: cleaned_def wf_frame_def no_nulls_def names_def layout_2014_def tahun_def)

theorem totals_conserved_witness:
  "summary_total_by layout_2014 (Label kabupaten_kota) []
     = Inr (Many [[(''nama_kabupaten/kota'', Str ''JAKARTA BARAT''), (''strata_II'', I64 5),
                   (''strata_III'', I64 0)],
                  [(''nama_kabupaten/kota'', Str ''JAKARTA UTARA''), (''strata_II'', I64 11),
                   (''strata_III'', I64 2)]]) \<and>
   column_total layout_2014 ''strata_II'' = 16 \<and>
   field_sum ''strata_II''
     [[(''nama_kabupaten/kota'', Str ''JAKARTA BARAT''), (''strata_II'', I64 5),
       (''strata_III'', I64 0)],
      [(''nama_kabupaten/kota'', Str ''JAKARTA UTARA''), (''strata_II'', I64 11),
       (''strata_III'', I64 2)]] = column_total layout_2014 ''strata_II''"
proof -
  have e: "summary_total_by layout_2014 (Label kabupaten_kota) []
     = Inr (Many [[(''nama_kabupaten/kota'', Str ''JAKARTA BARAT''), (''strata_II'', I64 5),
                   (''strata_III'', I64 0)],
                  [(''nama_kabupaten/kota'', Str ''JAKARTA UTARA''), (''strata_II'', I64 11),
                   (''strata_III'', I64 2)]])"
    by code_simp
  have m: "(''strata_II'', Int64) \<in> set (cols layout_2014)"
    "''strata_II'' \<notin> set (labels (Label kabupaten_kota))"
    by (simp_all add: layout_2014_def kabupaten_kota_def)
  have t: "column_total layout_2014 ''strata_II'' = 16"
    by (simp add: column_total_def cellv_def names_def layout_2014_def)
  have "field_sum ''strata_II'' (records_of
     (Many [[(''nama_kabupaten/kota'', Str ''JAKARTA BARAT''), (''strata_II'', I64 5),
             (''strata_III'', I64 0)],
            [(''nama_kabupaten/kota'', Str ''JAKARTA UTARA''), (''strata_II'', I64 11),
             (''strata_III'', I64 2)]])) = column_total layout_2014 ''strata_II''"
    using e totals_conserved [OF cleaned_layout_2014 m] by blast
  then show ?thesis
    using e t by simp
qed

theorem totals_conserved_counterexample:
  "cleaned layout_2014 \<and>
   (''strata_III'', Int64) \<in> set (cols layout_2014) \<and>
   set (labels (Label ''strata_III'')) \<subseteq> set (names layout_2014) \<and>
   summary_total_by layout_2014 (Label ''strata_III'') []
     = Inr (Many [[(''strata_III'', I64 0), (''strata_II'', I64 5)],
                  [(''strata_III'', I64 1), (''strata_II'', I64 11)]]) \<and>
   field_sum ''strata_III'' [[(''strata_III'', I64 0), (''strata_II'', I64 5)],
                             [(''strata_III'', I64 1), (''strata_II'', I64 11)]] = 1 \<and>
   column_total layout_2014 ''strata_III'' = 2"
proof -
  have "summary_total_by layout_2014 (Label ''strata_III'') []
     = Inr (Many [[(''strata_III'', I64 0), (''strata_II'', I64 5)],
                  [(''strata_III'', I64 1), (''strata_II'', I64 11)]])"
    by code_simp
  moreover have "column_total layout_2014 ''strata_III'' = 2"
    by (simp add: column_total_def cellv_def names_def layout_2014_def)
  moreover have "field_sum ''strata_III'' [[(''strata_III'', I64 0), (''strata_II'', I64 5)],
                             [(''strata_III'', I64 1), (''strata_II'', I64 11)]] = 1"
    by (simp add: field_sum_def field_def)
  ultimately show ?thesis
    using cleaned_layout_2014 by (simp add: layout_2014_def names_def)
qed

section \<open>The invariant established by loading\<close>

lemma np_int64_Inr: "np_int64 c = Inr c' \<Longrightarrow> \<exists>w. c' = I64 w"
  by (cases c) (auto split: if_splits)


















section \<open>The filter as the code applies it\<close>

lemma name_char_backtick: "name_char c \<Longrightarrow> c \<noteq> backtick"
  by (auto simp: name_char_def backtick_def)

lemma literal_char_dquote: "literal_char c \<Longrightarrow> c \<noteq> dquote"
  by (simp add: literal_char_def)

lemma parse_comparison_predicate:
  assumes "safe_filter (c, v)"
  shows "parse_comparison (predicate_text (c, v) @ rest) = Some ((c, v), rest)"
proof -
  from assms have c: "c \<noteq> []" "list_all name_char c" and v: "list_all literal_char v"
    by (simp_all add: safe_filter_def)
  have cb: "\<And>x. x \<in> set c \<Longrightarrow> x \<noteq> backtick"
    using c(2) by (auto simp: list_all_iff name_char_backtick)
  have vq: "\<And>x. x \<in> set v \<Longrightarrow> x \<noteq> dquote"
    using v by (auto simp: list_all_iff literal_char_dquote)
  let ?s2 = "backtick # '' == '' @ dquote # v @ dquote # rest"
  let ?s4 = "dquote # rest"
  have 1: "strip_prefix [backtick] (predicate_text (c, v) @ rest) = Some (c @ ?s2)"
    by (simp add: predicate_text_def)
  have 2: "takeWhile (\<lambda>x. x \<noteq> backtick) (c @ ?s2) = c"
    "dropWhile (\<lambda>x. x \<noteq> backtick) (c @ ?s2) = ?s2"
    using cb by (simp_all add: takeWhile_append2 dropWhile_append2)
  have 3: "strip_prefix (backtick # '' == '' @ [dquote]) ?s2 = Some (v @ ?s4)"
    using strip_prefix_append [of "backtick # '' == '' @ [dquote]" "v @ ?s4"] by simp
  have 4: "takeWhile (\<lambda>x. x \<noteq> dquote) (v @ ?s4) = v"
    "dropWhile (\<lambda>x. x \<noteq> dquote) (v @ ?s4) = ?s4"
    using vq by (simp_all add: takeWhile_append2 dropWhile_append2)
  have 5: "strip_prefix [dquote] ?s4 = Some rest" by simp
  show ?thesis
    unfolding parse_comparison_def 1 option.case Let_def 2 3 4 5
    using c v by simp
qed

lemma parse_query_text:
  assumes "filters \<noteq> []" and "list_all safe_filter filters"
  shows "parse_expr (query_text filters) = Some filters"
  using assms
proof (induction filters rule: induct_list012)
  case 1
  then show ?case by simp
next
  case (2 p)
  obtain c v where p: "p = (c, v)" by (cases p)
  have "parse_comparison (predicate_text (c, v) @ []) = Some ((c, v), [])"
    using 2 by (intro parse_comparison_predicate) (simp add: p)
  then show ?case
    by (subst parse_expr.simps) (simp add: query_text_def p)
next
  case (3 p q qs)
  obtain c v where p: "p = (c, v)" by (cases p)
  let ?rest = "'' | '' @ query_text (q # qs)"
  have a: "parse_comparison (predicate_text (c, v) @ ?rest) = Some ((c, v), ?rest)"
    using 3(4) by (intro parse_comparison_predicate) (simp add: p)
  have b: "strip_prefix '' | '' ?rest = Some (query_text (q # qs))"
    by (rule strip_prefix_append)
  have ih: "parse_expr (query_text (q # qs)) = Some (q # qs)"
    using 3 by simp
  have q: "query_text (p # q # qs) = predicate_text (c, v) @ ?rest"
    by (simp add: query_text_def p)
  show ?case
    unfolding q
    by (subst parse_expr.simps) (simp add: a b ih p del: append.simps)
qed


lemma query_safe:
  assumes "filters \<noteq> []" and "list_all safe_filter filters"
    and "\<forall>(c, v) \<in> set filters. c \<in> set (names d)"
  shows "query d (query_text filters)
         = Inr (d\<lparr>rows := filter (matches d filters) (rows d)\<rparr>)"
proof -
  have "find (\<lambda>(c, v). c \<notin> set (names d)) filters = None"
    using assms(3) by (auto simp: find_None_iff)
  then show ?thesis
    by (simp add: query_def parse_query_text [OF assms(1,2)])
qed

lemma matches_iff: "matches d filters r \<longleftrightarrow> (\<exists>(c, v) \<in> set filters. cellv d c r = Str v)"
  by (simp add: matches_def list_ex_iff)

lemma aggregate_safe:
  assumes "filters \<noteq> []" and "list_all safe_filter filters"
    and "\<forall>(c, v) \<in> set filters. c \<in> set (names d)"
  shows "aggregate d groups filters
         = groupby_sum_records (d\<lparr>rows := filter (matches d filters) (rows d)\<rparr>) groups"
  using assms(1) by (simp add: aggregate_def query_safe [OF assms])

lemma summary_total_by_no_match:
  assumes "filters \<noteq> []" and "list_all safe_filter filters"
    and "\<forall>(c, v) \<in> set filters. c \<in> set (names d)"
    and "labels groups \<noteq> []" and "set (labels groups) \<subseteq> set (names d)"
    and "distinct (labels groups)"
    and "\<forall>r \<in> set (rows d). \<not> matches d filters r"
  shows "summary_total_by d groups filters = Inr (Many [])"
proof -
  let ?fd = "d\<lparr>rows := filter (matches d filters) (rows d)\<rparr>"
  have e: "rows ?fd = []" using assms(7) by (simp add: filter_empty_conv)
  have "find (\<lambda>k. k \<notin> set (names ?fd)) (labels groups) = None"
    using assms(5) by (auto simp: find_None_iff names_def)
  then have "groupby_sum_records ?fd groups = Inr []"
    using assms(4,6) e by (simp add: groupby_sum_records_def Let_def group_keys_def)
  then show ?thesis
    by (simp add: summary_total_by_def aggregate_safe [OF assms(1-3)])
qed

lemma injected_query_text:
  "query_text [(kabupaten_kota, injected_city)]
   = query_text [(kabupaten_kota, ''X''), (kabupaten_kota, ''JAKARTA UTARA'')]"
  by (simp add: query_text_def predicate_text_def injected_city_def kabupaten_kota_def)

text \<open>
  C2 fails on the code for a filter value that holds a double quote: the value is
  written into the expression as it is. With the filter
  \<open>(nama_kabupaten/kota, injected_city)\<close> the comparison "field equals value" holds
  of no row, in particular not of the first one, and yet \<open>query\<close> keeps the first and
  the third row, those of \<open>JAKARTA UTARA\<close>. (For filters that are \<open>safe_filter\<close>,
  \<open>aggregate_safe\<close> shows that exactly the rows matching one of the predicates are
  kept.)
\<close>

theorem filter_value_injection:
  "\<not> matches layout_2014 [(kabupaten_kota, injected_city)] (rows layout_2014 ! 0) \<and>
   query layout_2014 (query_text [(kabupaten_kota, injected_city)])
     = Inr (layout_2014\<lparr>rows := [rows layout_2014 ! 0, rows layout_2014 ! 2]\<rparr>)"
  by code_simp

text \<open>
  C4 fails on the code at the same input: the only filter matches no row, and
  \<open>summary_total_by\<close> returns one record, not the empty list. (For filters that are
  \<open>safe_filter\<close>, \<open>summary_total_by_no_match\<close> shows that the result is the empty
  list.)
\<close>

theorem no_match_injection:
  "list_all (\<lambda>r. \<not> matches layout_2014 [(kabupaten_kota, injected_city)] r)
     (rows layout_2014) \<and>
   summary_total_by layout_2014 (Label kabupaten_kota) [(kabupaten_kota, injected_city)]
     = Inr (One [(''nama_kabupaten/kota'', Str ''JAKARTA UTARA''), (''strata_II'', I64 11),
                 (''strata_III'', I64 2)])"
  by code_simp

end
